theory Spec2Isabelle
  imports Main "HOL-Library.Sublist"
begin

section \<open>The static file handler of iris (fs.go)\<close>

text \<open>
  A shallow embedding of \<^verbatim>\<open>fs.go\<close>: the path normaliser \<^verbatim>\<open>toWebPath\<close>, the
  MIME resolver \<^verbatim>\<open>typeByExtension\<close>, the listing-suppressing file system
  (\<^verbatim>\<open>Open\<close>, \<^verbatim>\<open>noListFile.Readdir\<close>), the prefix stripper \<^verbatim>\<open>StripPrefix\<close> and the
  builder \<^verbatim>\<open>fsHandler\<close> with its once-only \<^verbatim>\<open>Build\<close>.

  Go strings are byte sequences; they are modelled as \<^typ>\<open>string\<close> (a list of 8-bit
  characters). Functions of the Go standard library that the source calls are either
  written out (the \<^verbatim>\<open>strings\<close> functions, \<^verbatim>\<open>filepath.Ext\<close>, \<^verbatim>\<open>sync.Once\<close>) or taken as
  parameters (the system MIME table, the operating system's files, the file server of
  \<^verbatim>\<open>net/http\<close>).
\<close>

subsection \<open>The functions of package strings that the source uses\<close>

text \<open>\<^verbatim>\<open>strings.HasPrefix(s, prefix)\<close>:
  \<^verbatim>\<open>len(s) >= len(prefix) && s[0:len(prefix)] == prefix\<close>.\<close>

definition HasPrefix :: "string \<Rightarrow> string \<Rightarrow> bool" where
  "HasPrefix s pfx = (length pfx \<le> length s \<and> take (length pfx) s = pfx)"

text \<open>\<^verbatim>\<open>strings.TrimPrefix(s, prefix)\<close>: \<^verbatim>\<open>s\<close> without the leading \<^verbatim>\<open>prefix\<close>, or
  \<^verbatim>\<open>s\<close> itself when it does not start with it.\<close>

definition TrimPrefix :: "string \<Rightarrow> string \<Rightarrow> string" where
  "TrimPrefix s pfx = (if HasPrefix s pfx then drop (length pfx) s else s)"

text \<open>
  \<^verbatim>\<open>strings.Replace(s, old, new, -1)\<close>: every non-overlapping occurrence of \<^verbatim>\<open>old\<close> is
  replaced by \<^verbatim>\<open>new\<close>, scanning from the left and resuming after each replaced
  occurrence. The source always passes \<^verbatim>\<open>-1\<close> as the count and a non-empty literal as
  \<^verbatim>\<open>old\<close>. (For an empty \<^verbatim>\<open>old\<close> Go inserts \<^verbatim>\<open>new\<close> before every rune and at the end;
  that branch is written for one-byte runes and no definition below reaches it.)
\<close>

function replaceFrom :: "string \<Rightarrow> string \<Rightarrow> string \<Rightarrow> string" where
  "replaceFrom s old new =
     (if old = [] then new @ concat (map (\<lambda>c. c # new) s)
      else if s = [] then []
      else if HasPrefix s old then new @ replaceFrom (drop (length old) s) old new
      else hd s # replaceFrom (tl s) old new)"
  by pat_completeness auto
termination
  by (relation "measure (\<lambda>(s, old, new). length s)") auto

definition Replace :: "string \<Rightarrow> string \<Rightarrow> string \<Rightarrow> string" where
  "Replace s old new = (if old = new then s else replaceFrom s old new)"

subsection \<open>PathNormalizer: toWebPath\<close>

text \<open>Modelled from the spec: the constant \<^verbatim>\<open>slash\<close> is declared in another file of
  the package; the spec calls it the URL separator.\<close>

definition slash :: string where
  "slash = ''/''"

text \<open>The Go literal \<^verbatim>\<open>"\\"\<close>: one backslash.\<close>

definition backslash :: string where
  "backslash = [CHR 0x5C]"

definition toWebPath :: "string \<Rightarrow> string" where
  "toWebPath systemPath =
     (let webpath = Replace systemPath backslash slash;
          webpath = Replace webpath (slash @ slash) slash;
          webpath = Replace webpath ''.'' ''''
      in webpath)"

subsection \<open>MimeResolver: typeByExtension\<close>

text \<open>\<^verbatim>\<open>os.IsPathSeparator\<close>: the slash, and on Windows the backslash as well. The flag
  says whether the program was built for Windows.\<close>

definition IsPathSeparator :: "bool \<Rightarrow> char \<Rightarrow> bool" where
  "IsPathSeparator windows c = (c = CHR ''/'' \<or> (windows \<and> c = CHR 0x5C))"

text \<open>
  \<^verbatim>\<open>filepath.Ext\<close>:
  \<^verbatim>\<open>for i := len(path) - 1; i >= 0 && !os.IsPathSeparator(path[i]); i-- {
      if path[i] == '.' { return path[i:] } }
  return ""\<close>
  The counter of \<open>ExtLoop\<close> is \<^verbatim>\<open>i + 1\<close>, so that \<open>0\<close> is the loop's exit at
  \<^verbatim>\<open>i = -1\<close>.
\<close>

primrec ExtLoop :: "bool \<Rightarrow> string \<Rightarrow> nat \<Rightarrow> string" where
  "ExtLoop windows path 0 = ''''"
| "ExtLoop windows path (Suc i) =
     (if IsPathSeparator windows (path ! i) then ''''
      else if path ! i = CHR ''.'' then drop i path
      else ExtLoop windows path i)"

definition Ext :: "bool \<Rightarrow> string \<Rightarrow> string" where
  "Ext windows path = ExtLoop windows path (length path)"

text \<open>
  \<^verbatim>\<open>typeByExtension\<close>. The system table \<^verbatim>\<open>mime.TypeByExtension\<close> depends on the host
  (registry, \<^verbatim>\<open>/etc/mime.types\<close>, \<^verbatim>\<open>mime.AddExtensionType\<close>); it is the parameter
  \<open>sysmime\<close>, which returns the empty string for an extension it does not know.
\<close>

definition typeByExtension :: "bool \<Rightarrow> (string \<Rightarrow> string) \<Rightarrow> string \<Rightarrow> string" where
  "typeByExtension windows sysmime fullfilename =
     (let ext = Ext windows fullfilename;
          t = sysmime ext
      in if t = '''' then
           (if ext = ''.json'' then ''application/json''
            else if ext = ''.js'' then ''application/javascript''
            else if ext = ''.zip'' then ''application/zip''
            else if ext = ''.3gp'' then ''video/3gpp''
            else if ext = ''.7z'' then ''application/x-7z-compressed''
            else if ext = ''.ace'' then ''application/x-ace-compressed''
            else if ext = ''.aac'' then ''audio/x-aac''
            else if ext = ''.ico'' then ''image/x-icon''
            else if ext = ''.png'' then ''image/png''
            else ''application/octet-stream'')
         else if t = ''text/plain'' \<or> t = ''text/plain; charset=utf-8'' then
           (if ext = ''.js'' then ''application/javascript'' else t)
         else t)"

text \<open>Two system tables used to run the resolver on concrete inputs: a host that knows
  no extension, and a host whose table has its own entries for three extensions.\<close>

definition emptyTable :: "string \<Rightarrow> string" where
  "emptyTable ext = []"

definition sampleTable :: "string \<Rightarrow> string" where
  "sampleTable ext =
     (if ext = ''.json'' then ''text/json; charset=utf-8''
      else if ext = ''.png'' then ''image/x-png''
      else if ext = ''.js'' then ''text/plain; charset=utf-8''
      else [])"

subsection \<open>The builder's data\<close>

text \<open>
  The handlers of \<^verbatim>\<open>net/http\<close> that \<^verbatim>\<open>Build\<close> composes, as data:
  \<^verbatim>\<open>http.FileServer(w)\<close> (its file system is the builder itself) and
  \<^verbatim>\<open>http.StripPrefix(prefix, h)\<close>.
\<close>

datatype http_Handler =
    FileServer
  | http_StripPrefix string http_Handler

text \<open>
  A \<^verbatim>\<open>HandlerFunc\<close> value. The closures that \<^verbatim>\<open>Build\<close> creates capture the builder by
  pointer, so a closure is the data it captures by value, and it is run against the
  builder's state at the time of the request:
  \<^item> \<open>nilHandler\<close>: the nil function value of a fresh builder;
  \<^item> \<open>staticHandler fsHandler\<close>: the closure \<^verbatim>\<open>h\<close> (lines 160-172), which captures the
    variable \<^verbatim>\<open>fsHandler\<close>;
  \<^item> \<open>Prioritize r\<close>: the result of \<^verbatim>\<open>Prioritize(r)\<close>, a function of another file;
  \<^item> \<open>chainHandler middleware\<close>: the closure of lines 181-184, which captures
    \<^verbatim>\<open>middleware\<close>.
  \<open>'r\<close> is the type \<^verbatim>\<open>RouteInfo\<close>, which the builder only stores.
\<close>

datatype 'r HandlerFunc =
    nilHandler
  | staticHandler http_Handler
  | Prioritize 'r
  | chainHandler "'r HandlerFunc list"

text \<open>
  The struct \<^verbatim>\<open>fsHandler\<close>. \<open>directory\<close> is the \<^verbatim>\<open>http.Dir\<close> (a string);
  \<open>filesystem\<close> is the \<^verbatim>\<open>http.FileSystem\<close> interface value, nil (\<open>None\<close>) until
  \<^verbatim>\<open>Build\<close> stores the directory in it; \<open>once\<close> is the done flag of the \<^verbatim>\<open>sync.Once\<close>.
\<close>

record 'r fsHandler =
  directory :: string
  requestPath :: string
  stripPath :: bool
  gzip :: bool
  listDirectories :: bool
  filesystem :: "string option"
  once :: bool
  exceptions :: "'r list"
  handler :: "'r HandlerFunc"

text \<open>\<^verbatim>\<open>abs\<close>: \<^verbatim>\<open>filepath.Abs\<close> depends on the working directory and is the parameter
  \<open>filepathAbs\<close> (\<open>None\<close> is its error).\<close>

definition abs' :: "(string \<Rightarrow> string option) \<Rightarrow> string \<Rightarrow> string" where
  "abs' filepathAbs path = (case filepathAbs path of None \<Rightarrow> path | Some absPath \<Rightarrow> absPath)"

definition NewStaticHandlerBuilder :: "(string \<Rightarrow> string option) \<Rightarrow> string \<Rightarrow> 'r fsHandler" where
  "NewStaticHandlerBuilder filepathAbs dir =
     \<lparr> directory = abs' filepathAbs dir,
       requestPath = toWebPath dir,
       stripPath = True,
       gzip = False,
       listDirectories = False,
       filesystem = None,
       once = False,
       exceptions = [],
       handler = nilHandler \<rparr>"

text \<open>The configuration mutators: each writes one field and returns the builder.\<close>

definition Path :: "string \<Rightarrow> 'r fsHandler \<Rightarrow> 'r fsHandler" where
  "Path requestRoutePath w = w\<lparr>requestPath := toWebPath requestRoutePath\<rparr>"

definition Gzip :: "bool \<Rightarrow> 'r fsHandler \<Rightarrow> 'r fsHandler" where
  "Gzip enable w = w\<lparr>gzip := enable\<rparr>"

definition Listing :: "bool \<Rightarrow> 'r fsHandler \<Rightarrow> 'r fsHandler" where
  "Listing listDirectoriesOnOff w = w\<lparr>listDirectories := listDirectoriesOnOff\<rparr>"

definition StripPath :: "bool \<Rightarrow> 'r fsHandler \<Rightarrow> 'r fsHandler" where
  "StripPath yesNo w = w\<lparr>stripPath := yesNo\<rparr>"

definition Except :: "'r list \<Rightarrow> 'r fsHandler \<Rightarrow> 'r fsHandler" where
  "Except r w = w\<lparr>exceptions := exceptions w @ r\<rparr>"

subsection \<open>ListingSuppressingFileSystem: Open and noListFile\<close>

text \<open>
  An \<^verbatim>\<open>http.File\<close>: a file \<open>'f\<close> of the underlying file system, or a \<^verbatim>\<open>noListFile\<close>
  that embeds one. \<^verbatim>\<open>Readdir\<close> of a \<^verbatim>\<open>noListFile\<close> returns \<^verbatim>\<open>nil, nil\<close>; of any other
  file it is the operating system's, the parameter \<open>osReaddir\<close>.
\<close>

datatype 'f File =
    osFile 'f
  | noListFile "'f File"

fun Readdir :: "('f \<Rightarrow> int \<Rightarrow> 'i list \<times> 'e option) \<Rightarrow> 'f File \<Rightarrow> int \<Rightarrow> 'i list \<times> 'e option" where
  "Readdir osReaddir (noListFile f) count = ([], None)"
| "Readdir osReaddir (osFile f) count = osReaddir f count"

text \<open>
  What \<^verbatim>\<open>Open\<close> can fail with: the error of the underlying file system, or the run-time
  panic of calling \<^verbatim>\<open>Open\<close> on the nil \<^verbatim>\<open>w.filesystem\<close> of a builder that was never
  built.
\<close>

datatype 'e failure =
    nilDereference
  | fsError 'e

text \<open>\<^verbatim>\<open>(w *fsHandler) Open\<close>. \<open>dirOpen d name\<close> is \<^verbatim>\<open>http.Dir(d).Open(name)\<close>, which
  reads the disk.\<close>

definition Open :: "(string \<Rightarrow> string \<Rightarrow> 'e + 'f) \<Rightarrow> 'r fsHandler \<Rightarrow> string \<Rightarrow> 'e failure + 'f File" where
  "Open dirOpen w name =
     (case filesystem w of
        None \<Rightarrow> Inl nilDereference
      | Some d \<Rightarrow>
          (case dirOpen d name of
             Inl err \<Rightarrow> Inl (fsError err)
           | Inr info \<Rightarrow>
               if \<not> listDirectories w then Inr (noListFile (osFile info))
               else Inr (osFile info)))"

subsection \<open>Build\<close>

text \<open>
  The loop \<^verbatim>\<open>for i := range w.exceptions { middleware[i] = Prioritize(w.exceptions[i]) }\<close>
  as a recursion on the index.
\<close>

function prioritizeLoop :: "nat \<Rightarrow> 'r list \<Rightarrow> 'r HandlerFunc list \<Rightarrow> 'r HandlerFunc list" where
  "prioritizeLoop i excs middleware =
     (if i < length excs
      then prioritizeLoop (Suc i) excs (middleware[i := Prioritize (excs ! i)])
      else middleware)"
  by pat_completeness auto
termination
  by (relation "measure (\<lambda>(i, excs, middleware). length excs - i)") auto

text \<open>The closure that \<^verbatim>\<open>Build\<close> passes to \<^verbatim>\<open>w.once.Do\<close> (lines 149-188).\<close>

definition BuildClosure :: "'r fsHandler \<Rightarrow> 'r fsHandler" where
  "BuildClosure w0 =
     (let w = w0\<lparr>filesystem := Some (directory w0)\<rparr>;
          fileserver = FileServer;
          fsHandler = (if stripPath w then http_StripPrefix (requestPath w) fileserver
                       else fileserver);
          h = staticHandler fsHandler
      in if length (exceptions w) > 0 then
           (let middleware = replicate (length (exceptions w) + 1) nilHandler;
                middleware = prioritizeLoop 0 (exceptions w) middleware;
                middleware = middleware[length (exceptions w) := h]
            in w\<lparr>handler := chainHandler middleware\<rparr>)
         else w\<lparr>handler := h\<rparr>)"

text \<open>\<^verbatim>\<open>sync.Once.Do\<close>: runs \<^verbatim>\<open>f\<close> if the flag is not set, and sets it when \<^verbatim>\<open>f\<close>
  returns. The lock of \<^verbatim>\<open>Once\<close> makes a call atomic with respect to other calls.\<close>

definition onceDo :: "('r fsHandler \<Rightarrow> 'r fsHandler) \<Rightarrow> 'r fsHandler \<Rightarrow> 'r fsHandler" where
  "onceDo f w = (if once w then w else (f w)\<lparr>once := True\<rparr>)"

text \<open>\<^verbatim>\<open>Build\<close> returns the builder's state after the call and the handler.\<close>

definition Build :: "'r fsHandler \<Rightarrow> 'r fsHandler \<times> 'r HandlerFunc" where
  "Build w = (let w' = onceDo BuildClosure w in (w', handler w'))"

text \<open>
  A program that uses one builder is a sequence of calls of its methods; concurrent
  callers of \<^verbatim>\<open>Build\<close> are ordered by the lock of \<^verbatim>\<open>sync.Once\<close>. \<open>runCalls\<close> performs
  the calls in order and collects what the calls of \<^verbatim>\<open>Build\<close> return;
  \<open>closureRuns\<close> counts the calls in which \<^verbatim>\<open>once.Do\<close> runs the closure, that is
  the calls of \<^verbatim>\<open>Build\<close> that find the flag unset.
\<close>

datatype 'r call =
    callPath string
  | callGzip bool
  | callListing bool
  | callStripPath bool
  | callExcept "'r list"
  | callBuild

fun doCall :: "'r fsHandler \<Rightarrow> 'r call \<Rightarrow> 'r fsHandler" where
  "doCall w (callPath p) = Path p w"
| "doCall w (callGzip b) = Gzip b w"
| "doCall w (callListing b) = Listing b w"
| "doCall w (callStripPath b) = StripPath b w"
| "doCall w (callExcept r) = Except r w"
| "doCall w callBuild = fst (Build w)"

fun runCalls :: "'r fsHandler \<Rightarrow> 'r call list \<Rightarrow> 'r fsHandler \<times> 'r HandlerFunc list" where
  "runCalls w [] = (w, [])"
| "runCalls w (callBuild # cs) =
     (let (w', h) = Build w; (w'', hs) = runCalls w' cs in (w'', h # hs))"
| "runCalls w (c # cs) = runCalls (doCall w c) cs"

fun closureRuns :: "'r fsHandler \<Rightarrow> 'r call list \<Rightarrow> nat" where
  "closureRuns w [] = 0"
| "closureRuns w (c # cs) =
     (if c = callBuild \<and> \<not> once w then 1 else 0) + closureRuns (doCall w c) cs"

subsection \<open>Serving a request\<close>

text \<open>
  What the handling of one request reads and writes. \<open>urlPath\<close> is
  \<^verbatim>\<open>ctx.Request.URL.Path\<close>; \<open>clientAllowsGzip\<close> is what the method of that name,
  defined in another file, reports for the request; \<open>header\<close> is
  \<^verbatim>\<open>ctx.ResponseWriter.Header()\<close>, a map from a key to its values; \<open>statusCode\<close> is the
  status written (0: none yet); \<open>Middleware\<close> is \<^verbatim>\<open>ctx.Middleware\<close>; \<open>gzipWritersInUse\<close>
  counts the compressing writers taken from the pool and not yet given back.
\<close>

record 'r Context =
  urlPath :: string
  clientAllowsGzip :: bool
  header :: "string \<Rightarrow> string list"
  statusCode :: nat
  Middleware :: "'r HandlerFunc list"
  gzipWritersInUse :: nat

text \<open>Modelled from the spec: the constants \<^verbatim>\<open>varyHeader\<close>, \<^verbatim>\<open>acceptEncodingHeader\<close> and
  \<^verbatim>\<open>contentEncodingHeader\<close> are declared in another file; the spec names the headers
  \<^verbatim>\<open>Vary: Accept-Encoding\<close> and \<^verbatim>\<open>Content-Encoding: gzip\<close>.\<close>

definition varyHeader :: string where
  "varyHeader = ''Vary''"

definition acceptEncodingHeader :: string where
  "acceptEncodingHeader = ''Accept-Encoding''"

definition contentEncodingHeader :: string where
  "contentEncodingHeader = ''Content-Encoding''"

text \<open>\<^verbatim>\<open>http.Header.Add\<close>: appends a value to the values of a key.\<close>

definition Header_Add :: "string \<Rightarrow> string \<Rightarrow> 'r Context \<Rightarrow> 'r Context" where
  "Header_Add k v ctx = ctx\<lparr>header := (header ctx)(k := header ctx k @ [v])\<rparr>"

text \<open>Modelled from the spec: \<^verbatim>\<open>ctx.SetHeader\<close> is defined in another file; the spec
  says that the handler sets the response header.\<close>

definition SetHeader :: "string \<Rightarrow> string \<Rightarrow> 'r Context \<Rightarrow> 'r Context" where
  "SetHeader k v ctx = ctx\<lparr>header := (header ctx)(k := [v])\<rparr>"

text \<open>Modelled from the spec: \<^verbatim>\<open>ctx.NotFound\<close> is defined in another file; the spec
  calls its outcome not found, a 404-equivalent.\<close>

definition NotFound :: "'r Context \<Rightarrow> 'r Context" where
  "NotFound ctx = ctx\<lparr>statusCode := 404\<rparr>"

text \<open>The write target handed to the file server: the response writer of the context,
  or a compressing writer around it.\<close>

datatype ResponseWriter =
    ctxResponseWriter
  | gzipResponseWriter

text \<open>Modelled from the spec: \<^verbatim>\<open>acquireGzipResponseWriter\<close> and
  \<^verbatim>\<open>releaseGzipResponseWriter\<close> are defined in another file; the spec says that the
  compressing adapter is acquired from a pool and released to it, and that the pool
  never fails to produce one.\<close>

definition acquireGzipResponseWriter :: "'r Context \<Rightarrow> ResponseWriter \<times> 'r Context" where
  "acquireGzipResponseWriter ctx =
     (gzipResponseWriter, ctx\<lparr>gzipWritersInUse := Suc (gzipWritersInUse ctx)\<rparr>)"

definition releaseGzipResponseWriter :: "'r Context \<Rightarrow> 'r Context" where
  "releaseGzipResponseWriter ctx = ctx\<lparr>gzipWritersInUse := gzipWritersInUse ctx - 1\<rparr>"

text \<open>
  The closure \<^verbatim>\<open>h\<close> (lines 160-172), run on the builder's state \<open>w\<close> at the time of the
  request. \<open>ServeHTTP\<close> is \<^verbatim>\<open>net/http\<close>: how the composed \<^verbatim>\<open>http.Handler\<close> serves a
  request, given the \<^verbatim>\<open>Open\<close> of its file system (the builder) and the write target.
  The deferred release runs when \<^verbatim>\<open>ServeHTTP\<close> has returned.
\<close>

definition serveStatic ::
  "(http_Handler \<Rightarrow> (string \<Rightarrow> 'e failure + 'f File) \<Rightarrow> ResponseWriter \<Rightarrow> 'r Context \<Rightarrow> 'r Context) \<Rightarrow>
   (string \<Rightarrow> string \<Rightarrow> 'e + 'f) \<Rightarrow> 'r fsHandler \<Rightarrow> http_Handler \<Rightarrow> 'r Context \<Rightarrow> 'r Context" where
  "serveStatic ServeHTTP dirOpen w fsHandler ctx =
     (if gzip w \<and> clientAllowsGzip ctx then
        (let ctx = Header_Add varyHeader acceptEncodingHeader ctx;
             ctx = SetHeader contentEncodingHeader ''gzip'' ctx;
             (gzipResWriter, ctx) = acquireGzipResponseWriter ctx;
             writer = gzipResWriter;
             ctx = ServeHTTP fsHandler (Open dirOpen w) writer ctx
         in releaseGzipResponseWriter ctx)
      else ServeHTTP fsHandler (Open dirOpen w) ctxResponseWriter ctx)"

text \<open>
  Running a \<^verbatim>\<open>HandlerFunc\<close> on the builder's state \<open>w\<close>. The chain closure prepends its
  middleware to \<^verbatim>\<open>ctx.Middleware\<close> and calls \<^verbatim>\<open>ctx.Do()\<close>. \<^verbatim>\<open>Do\<close> and the handlers
  that \<^verbatim>\<open>Prioritize\<close> returns belong to the framework's middleware mechanism, in other
  files; they are the parameters \<open>Do\<close> and \<open>runPrioritize\<close>, and both are given the
  way the static closures of this builder serve, since the chain they walk holds one.
  Calling the nil handler panics (\<open>None\<close>).
\<close>

definition Serve ::
  "((http_Handler \<Rightarrow> 'r Context \<Rightarrow> 'r Context) \<Rightarrow> 'r Context \<Rightarrow> 'r Context) \<Rightarrow>
   ((http_Handler \<Rightarrow> 'r Context \<Rightarrow> 'r Context) \<Rightarrow> 'r \<Rightarrow> 'r Context \<Rightarrow> 'r Context) \<Rightarrow>
   (http_Handler \<Rightarrow> (string \<Rightarrow> 'e failure + 'f File) \<Rightarrow> ResponseWriter \<Rightarrow> 'r Context \<Rightarrow> 'r Context) \<Rightarrow>
   (string \<Rightarrow> string \<Rightarrow> 'e + 'f) \<Rightarrow> 'r fsHandler \<Rightarrow> 'r HandlerFunc \<Rightarrow> 'r Context \<Rightarrow> 'r Context option" where
  "Serve Do runPrioritize ServeHTTP dirOpen w hf ctx =
     (case hf of
        nilHandler \<Rightarrow> None
      | staticHandler fsHandler \<Rightarrow> Some (serveStatic ServeHTTP dirOpen w fsHandler ctx)
      | Prioritize r \<Rightarrow> Some (runPrioritize (serveStatic ServeHTTP dirOpen w) r ctx)
      | chainHandler middleware \<Rightarrow>
          Some (Do (serveStatic ServeHTTP dirOpen w)
                  (ctx\<lparr>Middleware := middleware @ Middleware ctx\<rparr>)))"

text \<open>
  How a walk of a chain of handlers ends: it returns, it panics, or it is cut off by the
  bound on the number of entries it may evaluate.
\<close>

datatype 'a outcome =
    Returned 'a
  | Panicked
  | OutOfFuel

text \<open>Records one more evaluated entry in front of those of the rest of the walk.\<close>

fun evaluatedFirst :: "'h \<Rightarrow> ('h list \<times> 'c) outcome \<Rightarrow> ('h list \<times> 'c) outcome" where
  "evaluatedFirst m (Returned (ms, c)) = Returned (m # ms, c)"
| "evaluatedFirst m Panicked = Panicked"
| "evaluatedFirst m OutOfFuel = OutOfFuel"

text \<open>
  Modelled from the spec: \<^verbatim>\<open>ctx.Do\<close>, \<^verbatim>\<open>ctx.Next\<close> and the handlers that \<^verbatim>\<open>Prioritize\<close>
  returns are defined in other files of the package. The spec says that a request enters
  the exception chain, that an exception route is a higher-priority route checked before
  falling back to static serving, that each exception is evaluated in the order of the
  chain before the static handler, and that control falls to the static handler if no
  exception matches. Whether a route matches a request, and what the route does with a
  request it matches, are the parameters \<open>matches\<close> and \<open>execRoute\<close>; \<open>static\<close> is the
  way a static closure of the builder serves.

  \<open>walkChain\<close> evaluates the entries of a chain from the first one on and returns the
  entries it has evaluated, in order, with the context:
  \<^item> \<open>Prioritize r\<close>: if the route matches, it serves the request and the walk ends; if
    not, control passes to the next entry, with the context unchanged;
  \<^item> \<open>staticHandler\<close>: the closure \<^verbatim>\<open>h\<close> serves; its body (lines 160-172) has no call of
    \<^verbatim>\<open>ctx.Next\<close>, so the walk ends;
  \<^item> \<open>chainHandler\<close>: the closure of lines 181-184 puts its middleware in front of
    \<^verbatim>\<open>ctx.Middleware\<close> and calls \<^verbatim>\<open>ctx.Do\<close>, which walks the new chain from its first
    entry; the closure has no call of \<^verbatim>\<open>ctx.Next\<close> either;
  \<^item> \<open>nilHandler\<close>: calling the nil function panics.
  A chain closure can start the walk again without end (one with no middleware of its
  own in a chain that holds only itself), so the number of entries evaluated is bounded
  by the first argument, and a walk that needs more is \<open>OutOfFuel\<close>.
\<close>

fun walkChain ::
  "nat \<Rightarrow> ('r \<Rightarrow> 'r Context \<Rightarrow> bool) \<Rightarrow> ('r \<Rightarrow> 'r Context \<Rightarrow> 'r Context) \<Rightarrow>
   (http_Handler \<Rightarrow> 'r Context \<Rightarrow> 'r Context) \<Rightarrow> 'r HandlerFunc list \<Rightarrow> 'r Context \<Rightarrow>
   ('r HandlerFunc list \<times> 'r Context) outcome" where
  "walkChain 0 matches execRoute static chain ctx = OutOfFuel"
| "walkChain (Suc n) matches execRoute static [] ctx = Returned ([], ctx)"
| "walkChain (Suc n) matches execRoute static (nilHandler # rest) ctx = Panicked"
| "walkChain (Suc n) matches execRoute static (staticHandler fsHandler # rest) ctx =
     Returned ([staticHandler fsHandler], static fsHandler ctx)"
| "walkChain (Suc n) matches execRoute static (Prioritize r # rest) ctx =
     (if matches r ctx then Returned ([Prioritize r], execRoute r ctx)
      else evaluatedFirst (Prioritize r) (walkChain n matches execRoute static rest ctx))"
| "walkChain (Suc n) matches execRoute static (chainHandler middleware # rest) ctx =
     evaluatedFirst (chainHandler middleware)
       (walkChain n matches execRoute static (middleware @ Middleware ctx)
          (ctx\<lparr>Middleware := middleware @ Middleware ctx\<rparr>))"

subsection \<open>PrefixStripper: StripPrefix\<close>

text \<open>\<^verbatim>\<open>StripPrefix(prefix, h)\<close> of the package: here a \<^verbatim>\<open>HandlerFunc\<close> is any function on
  the context.\<close>

definition StripPrefix :: "string \<Rightarrow> ('r Context \<Rightarrow> 'r Context) \<Rightarrow> 'r Context \<Rightarrow> 'r Context" where
  "StripPrefix pfx h =
     (if pfx = [] then h
      else (\<lambda>ctx. let p = TrimPrefix (urlPath ctx) pfx
                 in if length p < length (urlPath ctx) then h (ctx\<lparr>urlPath := p\<rparr>)
                    else NotFound ctx))"

subsection \<open>Names for what the statements talk about\<close>

text \<open>The value of the variable \<^verbatim>\<open>fsHandler\<close> after lines 153-158 of \<^verbatim>\<open>Build\<close>: the file
  server, behind \<^verbatim>\<open>http.StripPrefix\<close> when \<^verbatim>\<open>stripPath\<close> is set.\<close>

definition composedHandler :: "'r fsHandler \<Rightarrow> http_Handler" where
  "composedHandler w =
     (if stripPath w then http_StripPrefix (requestPath w) FileServer else FileServer)"

text \<open>The context in which the closure \<^verbatim>\<open>h\<close> calls \<^verbatim>\<open>ServeHTTP\<close> on its compressing
  branch: both headers are written and the compressing writer is acquired.\<close>

definition gzipPrepared :: "'r Context \<Rightarrow> 'r Context" where
  "gzipPrepared ctx =
     snd (acquireGzipResponseWriter
            (SetHeader contentEncodingHeader ''gzip''
               (Header_Add varyHeader acceptEncodingHeader ctx)))"

subsection \<open>Test doubles and sample inputs\<close>

text \<open>
  Concrete values for the parameters, used to run the definitions: \<^verbatim>\<open>filepath.Abs\<close> on a
  path that is absolute already; a request with no response header written yet; a
  wrapped handler that answers 200; a disk with one directory \<^verbatim>\<open>/srv/assets\<close>, whose
  \<^verbatim>\<open>Readdir\<close> lists its two entries; a file server that writes nothing; the builder of
  \<^verbatim>\<open>/srv\<close> after its first \<^verbatim>\<open>Build\<close>; a sequence of calls; a builder with two exception
  routes added by two calls of \<^verbatim>\<open>Except\<close>.
\<close>

definition absolute :: "string \<Rightarrow> string option" where
  "absolute path = Some path"

definition requestFor :: "string \<Rightarrow> bool \<Rightarrow> nat Context" where
  "requestFor path allowsGzip =
     \<lparr> urlPath = path, clientAllowsGzip = allowsGzip, header = (\<lambda>k. []), statusCode = 0,
       Middleware = [], gzipWritersInUse = 0 \<rparr>"

definition answerOK :: "nat Context \<Rightarrow> nat Context" where
  "answerOK ctx = ctx\<lparr>statusCode := 200\<rparr>"

definition assetsDisk :: "string \<Rightarrow> string \<Rightarrow> string + string list" where
  "assetsDisk d name =
     (if d = ''/srv'' \<and> name = ''/assets'' then Inr [''app.js'', ''site.css'']
      else Inl ''file does not exist'')"

definition listAll :: "string list \<Rightarrow> int \<Rightarrow> string list \<times> string option" where
  "listAll entries count = (entries, None)"

definition idleServer ::
  "http_Handler \<Rightarrow> (string \<Rightarrow> string failure + string list File) \<Rightarrow> ResponseWriter \<Rightarrow>
   nat Context \<Rightarrow> nat Context" where
  "idleServer fsHandler fsOpen writer ctx = ctx"

definition builtSrv :: "nat fsHandler" where
  "builtSrv = fst (Build (NewStaticHandlerBuilder absolute ''/srv''))"

definition sampleCalls :: "nat call list" where
  "sampleCalls = [callGzip True, callBuild, callPath ''/files'', callExcept [7], callBuild,
                  callStripPath False, callBuild]"

definition twoRoutes :: "nat fsHandler" where
  "twoRoutes = Except [2] (Except [1] (NewStaticHandlerBuilder absolute ''/srv''))"

text \<open>
  Routes for the chain walk: a table in which only route 2 matches, one in which every
  route matches and one in which none does; a route that answers with a status of its
  own; a static handler that answers 200. And the built builder of \<^verbatim>\<open>/srv\<close> with one
  exception route added after its \<^verbatim>\<open>Build\<close>.
\<close>

definition routeTwoOnly :: "nat \<Rightarrow> nat Context \<Rightarrow> bool" where
  "routeTwoOnly r ctx = (r = 2)"

definition everyRoute :: "nat \<Rightarrow> nat Context \<Rightarrow> bool" where
  "everyRoute r ctx = True"

definition noRoute :: "nat \<Rightarrow> nat Context \<Rightarrow> bool" where
  "noRoute r ctx = False"

definition routeAnswers :: "nat \<Rightarrow> nat Context \<Rightarrow> nat Context" where
  "routeAnswers r ctx = ctx\<lparr>statusCode := 200 + r\<rparr>"

definition staticAnswers :: "http_Handler \<Rightarrow> nat Context \<Rightarrow> nat Context" where
  "staticAnswers fsHandler ctx = ctx\<lparr>statusCode := 200\<rparr>"

definition oneRouteLate :: "nat fsHandler" where
  "oneRouteLate = Except [7] builtSrv"

section \<open>Properties\<close>

subsection \<open>Replacement in strings\<close>

declare replaceFrom.simps [simp del]

lemma HasPrefix_prefix: "HasPrefix s pfx = prefix pfx s"
  unfolding HasPrefix_def
  by (metis append_eq_conv_conj prefix_def prefix_length_le take_is_prefix)

lemma replaceFrom_absent:
  "old \<noteq> [] \<Longrightarrow> \<not> sublist old s \<Longrightarrow> replaceFrom s old new = s"
proof (induction s)
  case Nil
  then show ?case by (simp add: replaceFrom.simps)
next
  case (Cons a s)
  then show ?case
    by (subst replaceFrom.simps) (auto simp: HasPrefix_prefix sublist_Cons_right)
qed

lemma replaceFrom_length_le:
  "old \<noteq> [] \<Longrightarrow> length new \<le> length old \<Longrightarrow> length (replaceFrom s old new) \<le> length s"
proof (induction s old new rule: replaceFrom.induct)
  case (1 s old new)
  show ?case
  proof (cases "s = []")
    case True
    with 1 show ?thesis by (simp add: replaceFrom.simps)
  next
    case False
    show ?thesis
    proof (cases "HasPrefix s old")
      case True
      with 1 False have "length (replaceFrom (drop (length old) s) old new) \<le> length s - length old"
        by simp
      moreover have "length old \<le> length s" using True by (simp add: HasPrefix_def)
      ultimately show ?thesis using 1(3,4) True False
        by (subst replaceFrom.simps) simp
    next
      case np: False
      with 1 False have "length (replaceFrom (tl s) old new) \<le> length (tl s)" by simp
      then show ?thesis using 1(3) False np
        by (subst replaceFrom.simps) (cases s; simp)
    qed
  qed
qed

lemma replaceFrom_length_less:
  "old \<noteq> [] \<Longrightarrow> length new < length old \<Longrightarrow> sublist old s \<Longrightarrow>
   length (replaceFrom s old new) < length s"
proof (induction s)
  case Nil
  then show ?case by simp
next
  case (Cons a s)
  show ?case
  proof (cases "HasPrefix (a # s) old")
    case True
    have "length (replaceFrom (drop (length old) (a # s)) old new) \<le> length (a # s) - length old"
      using replaceFrom_length_le [of old new "drop (length old) (a # s)"] Cons.prems by simp
    moreover have "length old \<le> length (a # s)" using True by (simp add: HasPrefix_def)
    ultimately show ?thesis using Cons.prems True
      by (subst replaceFrom.simps) simp
  next
    case False
    with Cons.prems have "sublist old s" by (simp add: sublist_Cons_right HasPrefix_prefix)
    with Cons have "length (replaceFrom s old new) < length s" by simp
    then show ?thesis using Cons.prems False
      by (subst replaceFrom.simps) simp
  qed
qed

lemma replaceFrom_char:
  "replaceFrom s [c] new = concat (map (\<lambda>x. if x = c then new else [x]) s)"
proof (induction s)
  case Nil
  then show ?case by (simp add: replaceFrom.simps)
next
  case (Cons a s)
  then show ?case
    by (subst replaceFrom.simps) (simp add: HasPrefix_def)
qed

lemma replaceFrom_set:
  "old \<noteq> [] \<Longrightarrow> set (replaceFrom s old new) \<subseteq> set s \<union> set new"
proof (induction s old new rule: replaceFrom.induct)
  case (1 s old new)
  show ?case
  proof (cases "s = []")
    case True
    with 1 show ?thesis by (simp add: replaceFrom.simps)
  next
    case False
    show ?thesis
    proof (cases "HasPrefix s old")
      case True
      with 1 False have "set (replaceFrom (drop (length old) s) old new) \<subseteq> set (drop (length old) s) \<union> set new"
        by simp
      moreover have "set (drop (length old) s) \<subseteq> set s" by (rule set_drop_subset)
      ultimately show ?thesis using 1(3) True False
        by (subst replaceFrom.simps) auto
    next
      case np: False
      with 1 False have "set (replaceFrom (tl s) old new) \<subseteq> set (tl s) \<union> set new" by simp
      then show ?thesis using 1(3) False np
        by (subst replaceFrom.simps) (cases s; auto)
    qed
  qed
qed

lemma Replace_char:
  "Replace s [c] new = concat (map (\<lambda>x. if x = c then new else [x]) s)"
proof (cases "new = [c]")
  case True
  have "concat (map (\<lambda>x. if x = c then [c] else [x]) s) = s"
    by (induction s) auto
  then show ?thesis unfolding True by (simp add: Replace_def)
next
  case False
  then show ?thesis by (auto simp: Replace_def replaceFrom_char)
qed

lemma Replace_absent: "old \<noteq> [] \<Longrightarrow> \<not> sublist old s \<Longrightarrow> Replace s old new = s"
  by (simp add: Replace_def replaceFrom_absent)

lemma Replace_set: "old \<noteq> [] \<Longrightarrow> set (Replace s old new) \<subseteq> set s \<union> set new"
  using replaceFrom_set [of old s new] by (auto simp: Replace_def)

lemma sublist_single: "sublist [c] s \<longleftrightarrow> c \<in> set s"
  by (induction s) (auto simp: sublist_Cons_right)

subsection \<open>toWebPath\<close>

text \<open>The result of \<^verbatim>\<open>toWebPath\<close> has no backslash and no dot.\<close>

lemma toWebPath_chars: "CHR 0x5C \<notin> set (toWebPath p) \<and> CHR ''.'' \<notin> set (toWebPath p)"
proof -
  define a where "a = Replace p backslash slash"
  define b where "b = Replace a (slash @ slash) slash"
  have w: "toWebPath p = Replace b ''.'' ''''"
    by (simp add: toWebPath_def a_def b_def)
  have a: "CHR 0x5C \<notin> set a"
    by (auto simp: a_def backslash_def slash_def Replace_char split: if_splits)
  have "set b \<subseteq> set a \<union> set slash"
    unfolding b_def by (rule Replace_set) (simp add: slash_def)
  with a have b: "CHR 0x5C \<notin> set b" by (auto simp: slash_def)
  have "set (Replace b ''.'' '''') \<subseteq> set b" "CHR ''.'' \<notin> set (Replace b ''.'' '''')"
    by (auto simp: Replace_char split: if_splits)
  with b w show ?thesis by auto
qed

text \<open>On a path with no backslash and no dot only the second replacement acts.\<close>

lemma toWebPath_clean:
  assumes "CHR 0x5C \<notin> set q" and "CHR ''.'' \<notin> set q"
  shows "toWebPath q = Replace q (slash @ slash) slash"
proof -
  have a: "Replace q backslash slash = q"
    using assms(1) by (simp add: Replace_absent backslash_def sublist_single)
  have "set (Replace q (slash @ slash) slash) \<subseteq> set q \<union> set slash"
    by (rule Replace_set) (simp add: slash_def)
  with assms(2) have "CHR ''.'' \<notin> set (Replace q (slash @ slash) slash)"
    by (auto simp: slash_def)
  then have "Replace (Replace q (slash @ slash) slash) ''.'' '''' = Replace q (slash @ slash) slash"
    by (simp add: Replace_absent sublist_single)
  with a show ?thesis by (simp add: toWebPath_def)
qed

lemma Replace_slashes_fixed:
  "Replace q (slash @ slash) slash = q \<longleftrightarrow> \<not> sublist (slash @ slash) q"
proof
  assume eq: "Replace q (slash @ slash) slash = q"
  show "\<not> sublist (slash @ slash) q"
  proof
    assume "sublist (slash @ slash) q"
    then have "length (replaceFrom q (slash @ slash) slash) < length q"
      by (intro replaceFrom_length_less) (simp_all add: slash_def)
    with eq show False by (simp add: Replace_def slash_def)
  qed
next
  assume "\<not> sublist (slash @ slash) q"
  then show "Replace q (slash @ slash) slash = q"
    by (simp add: Replace_absent slash_def)
qed

lemma toWebPath_dot_segment: "toWebPath ''/./'' = ''//''"
  by (simp add: toWebPath_def Replace_def slash_def backslash_def replaceFrom.simps HasPrefix_def)

lemma toWebPath_two_slashes: "toWebPath ''//'' = ''/''"
  by (simp add: toWebPath_def Replace_def slash_def backslash_def replaceFrom.simps HasPrefix_def)

lemma toWebPath_static_css: "toWebPath ''/static/css'' = ''/static/css''"
  by code_simp

text \<open>
  Claim C5 as stated, that \<^verbatim>\<open>toWebPath\<close> is idempotent on every path, fails: the dot of
  \<^verbatim>\<open>"/./"\<close> is removed after the doubled separators have been collapsed, which leaves
  \<^verbatim>\<open>"//"\<close>, and a second application collapses that to \<^verbatim>\<open>"/"\<close>.
\<close>

theorem toWebPath_not_idempotent: "toWebPath (toWebPath ''/./'') \<noteq> toWebPath ''/./''"
  by (simp add: toWebPath_dot_segment toWebPath_two_slashes)

text \<open>
  Claim C5, amended: for every system path \<open>p\<close>, applying \<^verbatim>\<open>toWebPath\<close> twice gives the
  same as applying it once exactly when the result of the first application contains no
  doubled separator.
\<close>

theorem toWebPath_idempotent_iff:
  "toWebPath (toWebPath p) = toWebPath p \<longleftrightarrow> \<not> sublist ''//'' (toWebPath p)"
proof -
  have "toWebPath (toWebPath p) = Replace (toWebPath p) (slash @ slash) slash"
    using toWebPath_chars [of p] by (intro toWebPath_clean) simp_all
  then show ?thesis
    using Replace_slashes_fixed [of "toWebPath p"] by (simp add: slash_def)
qed

theorem toWebPath_idempotent_iff_witness:
  "\<not> sublist ''//'' (toWebPath ''/static/css'') \<and>
   toWebPath (toWebPath ''/static/css'') = toWebPath ''/static/css'' \<and>
   sublist ''//'' (toWebPath ''/./'')"
  using toWebPath_idempotent_iff [of "''/static/css''"] toWebPath_idempotent_iff [of "''/./''"]
  by (simp add: toWebPath_static_css toWebPath_dot_segment toWebPath_two_slashes)

subsection \<open>typeByExtension\<close>

lemma ExtLoop_tail:
  "CHR ''.'' \<notin> set e \<Longrightarrow> \<forall>c\<in>set e. \<not> IsPathSeparator windows c \<Longrightarrow> k \<le> length e \<Longrightarrow>
   ExtLoop windows (pre @ CHR ''.'' # e) (Suc (length pre) + k) = CHR ''.'' # e"
proof (induction k)
  case 0
  then show ?case by (simp add: IsPathSeparator_def nth_append)
next
  case (Suc k)
  let ?path = "pre @ CHR ''.'' # e"
  from Suc.prems have k: "k < length e" by simp
  then have idx: "?path ! (Suc (length pre) + k) = e ! k"
    by (simp add: nth_append)
  from k have mem: "e ! k \<in> set e" by (rule nth_mem)
  have ok: "e ! k \<noteq> CHR ''.''" "\<not> IsPathSeparator windows (e ! k)"
    using mem Suc.prems(1,2) by metis+
  have "ExtLoop windows ?path (Suc (Suc (length pre) + k)) =
        ExtLoop windows ?path (Suc (length pre) + k)"
    unfolding ExtLoop.simps idx using ok by simp
  with Suc show ?case by simp
qed

text \<open>A path that ends in a dot and a tail without dot or separator has that ending as
  its extension.\<close>

lemma Ext_suffix:
  assumes "CHR ''.'' \<notin> set e" and "\<forall>c\<in>set e. \<not> IsPathSeparator windows c"
    and "suffix (CHR ''.'' # e) path"
  shows "Ext windows path = CHR ''.'' # e"
proof -
  from assms(3) obtain pre where p: "path = pre @ CHR ''.'' # e"
    by (auto simp: suffix_def)
  have "ExtLoop windows (pre @ CHR ''.'' # e) (Suc (length pre) + length e) = CHR ''.'' # e"
    using assms(1,2) by (intro ExtLoop_tail) simp_all
  then show ?thesis by (simp add: Ext_def p)
qed

lemma Ext_js: "suffix ''.js'' path \<Longrightarrow> Ext windows path = ''.js''"
  by (rule Ext_suffix) (auto simp: IsPathSeparator_def)

lemma Ext_json: "suffix ''.json'' path \<Longrightarrow> Ext windows path = ''.json''"
  by (rule Ext_suffix) (auto simp: IsPathSeparator_def)

lemma Ext_png: "suffix ''.png'' path \<Longrightarrow> Ext windows path = ''.png''"
  by (rule Ext_suffix) (auto simp: IsPathSeparator_def)

lemma Ext_unknownext: "Ext False ''file.unknownext'' = ''.unknownext''"
  by (simp add: Ext_def IsPathSeparator_def)

text \<open>
  Claim C3: for a file name that ends in \<^verbatim>\<open>.js\<close> and any system table, the resolver
  returns neither \<^verbatim>\<open>text/plain\<close> nor \<^verbatim>\<open>text/plain; charset=utf-8\<close>, and it returns
  \<^verbatim>\<open>application/javascript\<close> whenever the system table reports one of these two or
  nothing for \<^verbatim>\<open>.js\<close>.
\<close>

theorem typeByExtension_js:
  assumes "suffix ''.js'' fullfilename"
  shows "typeByExtension windows sysmime fullfilename \<noteq> ''text/plain'' \<and>
         typeByExtension windows sysmime fullfilename \<noteq> ''text/plain; charset=utf-8'' \<and>
         (sysmime ''.js'' = '''' \<or> sysmime ''.js'' = ''text/plain'' \<or>
          sysmime ''.js'' = ''text/plain; charset=utf-8''
            \<longrightarrow> typeByExtension windows sysmime fullfilename = ''application/javascript'')"
  using Ext_js [OF assms, of windows] by (auto simp: typeByExtension_def Let_def)

theorem typeByExtension_js_witness:
  "suffix ''.js'' ''app.js'' \<and>
   typeByExtension False sampleTable ''app.js'' = ''application/javascript'' \<and>
   typeByExtension False emptyTable ''app.js'' = ''application/javascript''"
  using typeByExtension_js [of "''app.js''" False sampleTable]
    typeByExtension_js [of "''app.js''" False emptyTable]
  by (simp add: sampleTable_def emptyTable_def suffix_def)

text \<open>
  Claim C9 as stated fails for \<^verbatim>\<open>.json\<close> and \<^verbatim>\<open>.png\<close>: the system table is asked first,
  and an entry it has for the extension is what the resolver returns.
\<close>

theorem typeByExtension_system_first:
  "typeByExtension False sampleTable ''data.json'' \<noteq> ''application/json''"
  by (simp add: typeByExtension_def sampleTable_def Ext_def IsPathSeparator_def)

text \<open>
  Claim C9, amended: when the system table has no entry for the extension, the resolver
  returns \<^verbatim>\<open>application/json\<close> for a file name that ends in \<^verbatim>\<open>.json\<close>, \<^verbatim>\<open>image/png\<close> for
  one that ends in \<^verbatim>\<open>.png\<close>, and \<^verbatim>\<open>application/octet-stream\<close> for an extension that the
  built-in table does not have either; when the system table has an entry for an
  extension other than \<^verbatim>\<open>.js\<close>, the resolver returns that entry.
\<close>

theorem typeByExtension_fallback:
  "(sysmime ''.json'' = '''' \<and> suffix ''.json'' fullfilename
      \<longrightarrow> typeByExtension windows sysmime fullfilename = ''application/json'') \<and>
   (sysmime ''.png'' = '''' \<and> suffix ''.png'' fullfilename
      \<longrightarrow> typeByExtension windows sysmime fullfilename = ''image/png'') \<and>
   (sysmime (Ext windows fullfilename) = '''' \<and>
    Ext windows fullfilename \<notin> set [''.json'', ''.js'', ''.zip'', ''.3gp'', ''.7z'', ''.ace'',
                                      ''.aac'', ''.ico'', ''.png'']
      \<longrightarrow> typeByExtension windows sysmime fullfilename = ''application/octet-stream'') \<and>
   (sysmime (Ext windows fullfilename) \<noteq> '''' \<and> Ext windows fullfilename \<noteq> ''.js''
      \<longrightarrow> typeByExtension windows sysmime fullfilename = sysmime (Ext windows fullfilename))"
proof (intro conjI impI)
  assume "sysmime ''.json'' = '''' \<and> suffix ''.json'' fullfilename"
  then show "typeByExtension windows sysmime fullfilename = ''application/json''"
    using Ext_json [of fullfilename windows] by (simp add: typeByExtension_def)
next
  assume "sysmime ''.png'' = '''' \<and> suffix ''.png'' fullfilename"
  then show "typeByExtension windows sysmime fullfilename = ''image/png''"
    using Ext_png [of fullfilename windows] by (simp add: typeByExtension_def)
next
  assume "sysmime (Ext windows fullfilename) = '''' \<and>
    Ext windows fullfilename \<notin> set [''.json'', ''.js'', ''.zip'', ''.3gp'', ''.7z'', ''.ace'',
                                      ''.aac'', ''.ico'', ''.png'']"
  then show "typeByExtension windows sysmime fullfilename = ''application/octet-stream''"
    by (simp add: typeByExtension_def Let_def)
next
  assume "sysmime (Ext windows fullfilename) \<noteq> '''' \<and> Ext windows fullfilename \<noteq> ''.js''"
  then show "typeByExtension windows sysmime fullfilename = sysmime (Ext windows fullfilename)"
    by (simp add: typeByExtension_def Let_def)
qed

theorem typeByExtension_fallback_witness:
  "typeByExtension False emptyTable ''data.json'' = ''application/json'' \<and>
   typeByExtension False emptyTable ''logo.png'' = ''image/png'' \<and>
   typeByExtension False emptyTable ''file.unknownext'' = ''application/octet-stream'' \<and>
   typeByExtension False sampleTable ''logo.png'' = ''image/x-png''"
  using typeByExtension_fallback [of emptyTable "''data.json''" False]
    typeByExtension_fallback [of emptyTable "''logo.png''" False]
    typeByExtension_fallback [of emptyTable "''file.unknownext''" False]
    typeByExtension_fallback [of sampleTable "''logo.png''" False]
  by (simp add: emptyTable_def sampleTable_def suffix_def Ext_unknownext Ext_png)

subsection \<open>StripPrefix\<close>

lemma TrimPrefix_append: "TrimPrefix (pfx @ rest) pfx = rest"
  by (simp add: TrimPrefix_def HasPrefix_def)

lemma TrimPrefix_no_prefix: "\<not> prefix pfx s \<Longrightarrow> TrimPrefix s pfx = s"
  by (simp add: TrimPrefix_def HasPrefix_prefix)

lemma StripPrefix_match:
  "pfx \<noteq> [] \<Longrightarrow> urlPath ctx = pfx @ rest \<Longrightarrow> StripPrefix pfx h ctx = h (ctx\<lparr>urlPath := rest\<rparr>)"
  by (simp add: StripPrefix_def TrimPrefix_append Let_def)

lemma StripPrefix_mismatch:
  "pfx \<noteq> [] \<Longrightarrow> \<not> prefix pfx (urlPath ctx) \<Longrightarrow> StripPrefix pfx h ctx = NotFound ctx"
  by (simp add: StripPrefix_def TrimPrefix_no_prefix Let_def)

text \<open>
  Claim C2: with a non-empty prefix, a request whose path is the prefix followed by
  \<open>rest\<close> reaches the wrapped handler with the path \<open>rest\<close> (one leading occurrence is
  removed, whatever \<open>rest\<close> begins with); a request whose path does not start with the
  prefix gets the not-found answer, which does not depend on the wrapped handler, so the
  wrapped handler is not invoked; with the empty prefix the wrapped handler gets the
  request as it is. With the prefix \<^verbatim>\<open>/static\<close>, \<^verbatim>\<open>/other/x\<close> is not found and
  \<^verbatim>\<open>/static/x\<close> reaches the wrapped handler as \<^verbatim>\<open>/x\<close>.
\<close>

theorem StripPrefix_strips:
  "(pfx \<noteq> [] \<and> urlPath ctx = pfx @ rest \<longrightarrow> StripPrefix pfx h ctx = h (ctx\<lparr>urlPath := rest\<rparr>)) \<and>
   (pfx \<noteq> [] \<and> \<not> prefix pfx (urlPath ctx) \<longrightarrow> StripPrefix pfx h ctx = NotFound ctx) \<and>
   StripPrefix [] h ctx = h ctx \<and>
   StripPrefix ''/static'' h (ctx\<lparr>urlPath := ''/other/x''\<rparr>) = NotFound (ctx\<lparr>urlPath := ''/other/x''\<rparr>) \<and>
   StripPrefix ''/static'' h (ctx\<lparr>urlPath := ''/static/x''\<rparr>) = h (ctx\<lparr>urlPath := ''/x''\<rparr>)"
proof (intro conjI impI)
  assume "pfx \<noteq> [] \<and> urlPath ctx = pfx @ rest"
  then show "StripPrefix pfx h ctx = h (ctx\<lparr>urlPath := rest\<rparr>)"
    by (simp add: StripPrefix_match)
next
  assume "pfx \<noteq> [] \<and> \<not> prefix pfx (urlPath ctx)"
  then show "StripPrefix pfx h ctx = NotFound ctx"
    by (simp add: StripPrefix_mismatch)
next
  show "StripPrefix [] h ctx = h ctx"
    by (simp add: StripPrefix_def)
next
  show "StripPrefix ''/static'' h (ctx\<lparr>urlPath := ''/other/x''\<rparr>) = NotFound (ctx\<lparr>urlPath := ''/other/x''\<rparr>)"
    by (rule StripPrefix_mismatch) simp_all
next
  have "StripPrefix ''/static'' h (ctx\<lparr>urlPath := ''/static/x''\<rparr>) =
        h (ctx\<lparr>urlPath := ''/static/x''\<rparr>\<lparr>urlPath := ''/x''\<rparr>)"
    by (rule StripPrefix_match) simp_all
  then show "StripPrefix ''/static'' h (ctx\<lparr>urlPath := ''/static/x''\<rparr>) = h (ctx\<lparr>urlPath := ''/x''\<rparr>)"
    by simp
qed

theorem StripPrefix_strips_witness:
  "statusCode (StripPrefix ''/static'' answerOK (requestFor ''/static/static/x'' False)) = 200 \<and>
   urlPath (StripPrefix ''/static'' answerOK (requestFor ''/static/static/x'' False)) = ''/static/x'' \<and>
   statusCode (StripPrefix ''/static'' answerOK (requestFor ''/other/x'' False)) = 404 \<and>
   urlPath (StripPrefix ''/static'' answerOK (requestFor ''/other/x'' False)) = ''/other/x''"
  using StripPrefix_strips [of "''/static''" "requestFor ''/static/static/x'' False" "''/static/x''" answerOK]
    StripPrefix_strips [of "''/static''" "requestFor ''/other/x'' False" "[]" answerOK]
  by (simp add: requestFor_def answerOK_def NotFound_def)

text \<open>
  Claim C10: with a non-empty prefix, a request whose path is exactly the prefix is not
  answered by the stripper's not-found branch: the path is rewritten to the empty string,
  which is strictly shorter, and the wrapped handler is invoked on it.
\<close>

theorem StripPrefix_whole_path:
  assumes "pfx \<noteq> []" and "urlPath ctx = pfx"
  shows "StripPrefix pfx h ctx = h (ctx\<lparr>urlPath := []\<rparr>) \<and>
         TrimPrefix (urlPath ctx) pfx = [] \<and>
         length (TrimPrefix (urlPath ctx) pfx) < length (urlPath ctx)"
  using assms StripPrefix_match [of pfx ctx "[]" h] TrimPrefix_append [of pfx "[]"] by simp

theorem StripPrefix_whole_path_witness:
  "StripPrefix ''/static'' answerOK (requestFor ''/static'' False) =
     answerOK ((requestFor ''/static'' False)\<lparr>urlPath := []\<rparr>) \<and>
   statusCode (StripPrefix ''/static'' answerOK (requestFor ''/static'' False)) = 200"
  using StripPrefix_whole_path [of "''/static''" "requestFor ''/static'' False" answerOK]
  by (simp add: requestFor_def answerOK_def)

subsection \<open>The sample builders\<close>

lemma freshSrv_eq:
  "(NewStaticHandlerBuilder absolute ''/srv'' :: nat fsHandler) =
     \<lparr> directory = ''/srv'', requestPath = ''/srv'', stripPath = True, gzip = False,
       listDirectories = False, filesystem = None, once = False, exceptions = [],
       handler = nilHandler \<rparr>"
  by code_simp

lemma builtSrv_eq:
  "builtSrv = \<lparr> directory = ''/srv'', requestPath = ''/srv'', stripPath = True, gzip = False,
       listDirectories = False, filesystem = Some ''/srv'', once = True, exceptions = [],
       handler = staticHandler (http_StripPrefix ''/srv'' FileServer) \<rparr>"
  by code_simp

lemma twoRoutes_eq:
  "twoRoutes =
     \<lparr> directory = ''/srv'', requestPath = ''/srv'', stripPath = True, gzip = False,
       listDirectories = False, filesystem = None, once = False, exceptions = [1, 2],
       handler = nilHandler \<rparr>"
  by code_simp

lemma runCalls_sample:
  "runCalls (NewStaticHandlerBuilder absolute ''/srv'') sampleCalls =
     (\<lparr> directory = ''/srv'', requestPath = ''/files'', stripPath = False, gzip = True,
        listDirectories = False, filesystem = Some ''/srv'', once = True, exceptions = [7],
        handler = staticHandler (http_StripPrefix ''/srv'' FileServer) \<rparr>,
      [staticHandler (http_StripPrefix ''/srv'' FileServer),
       staticHandler (http_StripPrefix ''/srv'' FileServer),
       staticHandler (http_StripPrefix ''/srv'' FileServer)])"
  by code_simp

lemma once_builtSrv: "once builtSrv"
  by (simp add: builtSrv_eq)

lemma Open_builtSrv:
  "Open assetsDisk builtSrv ''/assets'' = Inr (noListFile (osFile [''app.js'', ''site.css'']))"
  by (simp add: builtSrv_eq Open_def assetsDisk_def)

subsection \<open>Open and Readdir\<close>

text \<open>
  Claim C6: a file handle that \<^verbatim>\<open>Open\<close> returns while \<^verbatim>\<open>listDirectories\<close> is false
  enumerates nothing and reports no error, for every count and whatever the operating
  system would list.
\<close>

theorem noListFile_Readdir:
  assumes "\<not> listDirectories w" and "Open dirOpen w name = Inr f"
  shows "Readdir osReaddir f count = ([], None)"
  using assms by (auto simp: Open_def split: option.splits sum.splits)

theorem noListFile_Readdir_witness:
  "Open assetsDisk builtSrv ''/assets'' = Inr (noListFile (osFile [''app.js'', ''site.css''])) \<and>
   Readdir listAll (noListFile (osFile [''app.js'', ''site.css''])) (-1) = ([], None) \<and>
   Readdir listAll (osFile [''app.js'', ''site.css'']) (-1) = ([''app.js'', ''site.css''], None)"
  using noListFile_Readdir [of builtSrv assetsDisk "''/assets''" _ listAll "-1"] Open_builtSrv
  by (simp add: builtSrv_eq listAll_def)

lemma Open_cong:
  "listDirectories w' = listDirectories w \<Longrightarrow> filesystem w' = filesystem w \<Longrightarrow>
   Open dirOpen w' = Open dirOpen w"
  by (intro ext) (simp add: Open_def split: option.split sum.split)

subsection \<open>Build\<close>

declare prioritizeLoop.simps [simp del]

text \<open>The loop stores \<^verbatim>\<open>Prioritize\<close> of the exceptions from index \<open>i\<close> on, in their
  order, and leaves the other entries of the slice alone.\<close>

lemma prioritizeLoop_fills:
  "i \<le> length excs \<Longrightarrow> length excs \<le> length middleware \<Longrightarrow>
   prioritizeLoop i excs middleware =
     take i middleware @ map Prioritize (drop i excs) @ drop (length excs) middleware"
proof (induction i excs middleware rule: prioritizeLoop.induct)
  case (1 i excs middleware)
  show ?case
  proof (cases "i < length excs")
    case True
    let ?m = "middleware[i := Prioritize (excs ! i)]"
    from True 1 have "prioritizeLoop (Suc i) excs ?m =
        take (Suc i) ?m @ map Prioritize (drop (Suc i) excs) @ drop (length excs) ?m"
      by simp
    moreover have "take (Suc i) ?m = take i middleware @ [Prioritize (excs ! i)]"
      using True 1(3) by (simp add: take_Suc_conv_app_nth)
    moreover have "drop (length excs) ?m = drop (length excs) middleware"
      using True by simp
    moreover have "drop i excs = excs ! i # drop (Suc i) excs"
      using True by (simp add: Cons_nth_drop_Suc)
    ultimately show ?thesis using True
      by (subst prioritizeLoop.simps) simp
  next
    case False
    with 1(2) have "i = length excs" by simp
    then show ?thesis
      by (subst prioritizeLoop.simps) simp
  qed
qed

lemma middleware_built:
  "(prioritizeLoop 0 excs (replicate (length excs + 1) nilHandler))[length excs := h] =
   map Prioritize excs @ [h]"
proof -
  let ?nils = "replicate (length excs + 1) nilHandler"
  have nils: "?nils = replicate (length excs) nilHandler @ [nilHandler]"
    by (simp add: replicate_append_same)
  have "drop (length excs) ?nils = [nilHandler]"
    unfolding nils by simp
  moreover have "prioritizeLoop 0 excs ?nils =
        take 0 ?nils @ map Prioritize (drop 0 excs) @ drop (length excs) ?nils"
    by (rule prioritizeLoop_fills) simp_all
  ultimately have "prioritizeLoop 0 excs ?nils = map Prioritize excs @ [nilHandler]"
    by simp
  then show ?thesis by (simp add: list_update_append)
qed

lemma middleware_built_Suc:
  "(prioritizeLoop 0 excs (nilHandler # replicate (length excs) nilHandler))[length excs := h] =
   map Prioritize excs @ [h]"
  using middleware_built [of excs h] by simp

lemma BuildClosure_eq:
  "BuildClosure w =
     w\<lparr>filesystem := Some (directory w),
       handler := (if exceptions w = [] then staticHandler (composedHandler w)
                   else chainHandler (map Prioritize (exceptions w) @
                                      [staticHandler (composedHandler w)]))\<rparr>"
  by (simp add: BuildClosure_def Let_def middleware_built_Suc composedHandler_def)

lemma Build_built: "once w \<Longrightarrow> Build w = (w, handler w)"
  by (simp add: Build_def onceDo_def)

lemma Build_first:
  "\<not> once w \<Longrightarrow> Build w = ((BuildClosure w)\<lparr>once := True\<rparr>, handler (BuildClosure w))"
  by (simp add: Build_def onceDo_def)

lemma Build_sets_once: "once (fst (Build w))"
  by (simp add: Build_def onceDo_def)

lemma doCall_mutator:
  "c \<noteq> callBuild \<Longrightarrow> once (doCall w c) = once w \<and> handler (doCall w c) = handler w"
  by (cases c) (simp_all add: Path_def Gzip_def Listing_def StripPath_def Except_def)

lemma runCalls_mutator: "c \<noteq> callBuild \<Longrightarrow> runCalls w (c # cs) = runCalls (doCall w c) cs"
  by (cases c) simp_all

text \<open>Once the flag is set, no call changes the handler, every \<^verbatim>\<open>Build\<close> returns it, and
  the closure does not run again.\<close>

lemma runCalls_built:
  "once w \<Longrightarrow> runCalls w cs = (w', hs) \<Longrightarrow>
   once w' \<and> handler w' = handler w \<and> set hs \<subseteq> {handler w} \<and> closureRuns w cs = 0"
proof (induction cs arbitrary: w w' hs)
  case Nil
  then show ?case by simp
next
  case (Cons c cs)
  show ?case
  proof (cases "c = callBuild")
    case True
    obtain w'' hs' where r: "runCalls w cs = (w'', hs')" by (cases "runCalls w cs")
    with Cons.prems True have "w' = w''" "hs = handler w # hs'"
      by (simp_all add: Build_built)
    moreover from Cons.IH [OF Cons.prems(1) r]
    have "once w'' \<and> handler w'' = handler w \<and> set hs' \<subseteq> {handler w} \<and> closureRuns w cs = 0" .
    ultimately show ?thesis using True Cons.prems(1) by (simp add: Build_built)
  next
    case False
    from False Cons.prems have r: "runCalls (doCall w c) cs = (w', hs)"
      by (simp add: runCalls_mutator)
    from False Cons.prems(1) have o: "once (doCall w c)" "handler (doCall w c) = handler w"
      by (simp_all add: doCall_mutator)
    from Cons.IH [OF o(1) r] o(2) False show ?thesis by simp
  qed
qed

lemma runCalls_fresh:
  "\<not> once w \<Longrightarrow> runCalls w cs = (w', hs) \<Longrightarrow>
   set hs \<subseteq> {handler w'} \<and> closureRuns w cs = (if callBuild \<in> set cs then 1 else 0) \<and>
   (once w' \<longleftrightarrow> callBuild \<in> set cs)"
proof (induction cs arbitrary: w w' hs)
  case Nil
  then show ?case by simp
next
  case (Cons c cs)
  show ?case
  proof (cases "c = callBuild")
    case True
    let ?w1 = "fst (Build w)"
    have b: "Build w = (?w1, handler ?w1)" by (simp add: Build_def Let_def)
    obtain w'' hs' where r: "runCalls ?w1 cs = (w'', hs')" by (cases "runCalls ?w1 cs")
    have eq: "w' = w''" "hs = handler ?w1 # hs'"
      using Cons.prems(2) True b r by (auto simp: Let_def split: prod.splits)
    from runCalls_built [OF Build_sets_once r]
    have "once w'' \<and> handler w'' = handler ?w1 \<and> set hs' \<subseteq> {handler ?w1} \<and> closureRuns ?w1 cs = 0" .
    then show ?thesis using True eq Cons.prems(1) by auto
  next
    case False
    from False Cons.prems have r: "runCalls (doCall w c) cs = (w', hs)"
      by (simp add: runCalls_mutator)
    from False Cons.prems(1) have o: "\<not> once (doCall w c)"
      by (simp add: doCall_mutator)
    from Cons.IH [OF o r] False Cons.prems(1) show ?thesis by auto
  qed
qed

text \<open>
  Claim C1: on a builder that has not been built, whatever sequence of calls follows
  (calls of \<^verbatim>\<open>Build\<close> in any number, with mutators between them; calls from several
  callers in the order in which the lock of \<^verbatim>\<open>sync.Once\<close> admits them), every call of
  \<^verbatim>\<open>Build\<close> returns the same handler, the one stored in the builder, and the closure
  with the composition runs in exactly one call if \<^verbatim>\<open>Build\<close> is called at all. The
  first \<^verbatim>\<open>Build\<close> leaves the state that one run of the closure produces, and a further
  \<^verbatim>\<open>Build\<close> returns the same state and handler.
\<close>

theorem Build_once:
  assumes "\<not> once w" and "runCalls w calls = (w', hs)"
  shows "(\<forall>h \<in> set hs. h = handler w') \<and>
         closureRuns w calls = (if callBuild \<in> set calls then 1 else 0) \<and>
         Build (fst (Build w)) = Build w \<and>
         fst (Build w) = (BuildClosure w)\<lparr>once := True\<rparr>"
proof -
  have "Build (fst (Build w)) = Build w"
    using Build_built [OF Build_sets_once, of w] by (simp add: Build_def Let_def)
  moreover have "fst (Build w) = (BuildClosure w)\<lparr>once := True\<rparr>"
    using assms(1) by (simp add: Build_first)
  ultimately show ?thesis using runCalls_fresh [OF assms] by auto
qed

theorem Build_once_witness:
  "\<not> once (NewStaticHandlerBuilder absolute ''/srv'' :: nat fsHandler) \<and>
   snd (runCalls (NewStaticHandlerBuilder absolute ''/srv'') sampleCalls) =
     [staticHandler (http_StripPrefix ''/srv'' FileServer),
      staticHandler (http_StripPrefix ''/srv'' FileServer),
      staticHandler (http_StripPrefix ''/srv'' FileServer)] \<and>
   closureRuns (NewStaticHandlerBuilder absolute ''/srv'') sampleCalls = 1"
proof -
  have fresh: "\<not> once (NewStaticHandlerBuilder absolute ''/srv'' :: nat fsHandler)"
    by (simp add: freshSrv_eq)
  have "callBuild \<in> set sampleCalls" by (simp add: sampleCalls_def)
  then show ?thesis
    using Build_once [OF fresh runCalls_sample] fresh runCalls_sample by simp
qed

text \<open>While no route matches, the walk passes along the exceptions in their order; it
  ends at the first route that matches, or at the static handler behind them.\<close>

lemma walkChain_prioritized:
  "length excs < fuel \<Longrightarrow>
   walkChain fuel matches execRoute static (map Prioritize excs @ staticHandler fsHandler # rest) ctx =
     (case find (\<lambda>e. matches e ctx) excs of
        Some e \<Rightarrow>
          Returned (map Prioritize (takeWhile (\<lambda>e. \<not> matches e ctx) excs) @ [Prioritize e],
                    execRoute e ctx)
      | None \<Rightarrow>
          Returned (map Prioritize (takeWhile (\<lambda>e. \<not> matches e ctx) excs) @ [staticHandler fsHandler],
                    static fsHandler ctx))"
proof (induction excs arbitrary: fuel)
  case Nil
  then obtain n where "fuel = Suc n" by (cases fuel) auto
  then show ?case by simp
next
  case (Cons e excs)
  then obtain n where n: "fuel = Suc n" "length excs < n" by (cases fuel) auto
  show ?case
  proof (cases "matches e ctx")
    case True
    then show ?thesis by (simp add: n)
  next
    case False
    then show ?thesis
      using Cons.IH [OF n(2)] by (simp add: n split: option.split)
  qed
qed

lemma oneRouteLate_eq:
  "oneRouteLate = \<lparr> directory = ''/srv'', requestPath = ''/srv'', stripPath = True, gzip = False,
       listDirectories = False, filesystem = Some ''/srv'', once = True, exceptions = [7],
       handler = staticHandler (http_StripPrefix ''/srv'' FileServer) \<rparr>"
  by code_simp

lemma noRoute_fresh: "\<not> once (NewStaticHandlerBuilder absolute ''/srv'' :: nat fsHandler)"
  by (simp add: freshSrv_eq)

lemma oneRoute_fresh:
  "\<not> once (Except [1] (NewStaticHandlerBuilder absolute ''/srv'' :: nat fsHandler))"
  by (simp add: Except_def freshSrv_eq)

text \<open>
  Claim C7 as stated, for every builder with one or more registered exception routes,
  fails on a builder whose routes are registered after its first \<^verbatim>\<open>Build\<close>: the flag of
  \<^verbatim>\<open>once.Do\<close> keeps the handler composed at the first call. The builder of \<^verbatim>\<open>/srv\<close>
  with route 7 added after \<^verbatim>\<open>Build\<close> has a registered exception, its compiled handler is
  the static handler alone, and a request that route 7 matches is served by the static
  handler with no exception evaluated.
\<close>

theorem Except_after_Build_not_evaluated:
  "exceptions oneRouteLate = [7] \<and>
   snd (Build oneRouteLate) = staticHandler (http_StripPrefix ''/srv'' FileServer) \<and>
   walkChain 3 everyRoute routeAnswers staticAnswers [snd (Build oneRouteLate)]
       (requestFor ''/srv/app.js'' False) =
     Returned ([staticHandler (http_StripPrefix ''/srv'' FileServer)],
               staticAnswers (http_StripPrefix ''/srv'' FileServer) (requestFor ''/srv/app.js'' False))"
  by (simp add: oneRouteLate_eq Build_def onceDo_def numeral_3_eq_3)

text \<open>
  Claim C7, amended: for every builder that has not been built, with the exception
  routes registered by then (those it had, followed by those of a further \<^verbatim>\<open>Except\<close>),
  the first \<^verbatim>\<open>Build\<close> returns the static handler itself if there is no exception, and
  otherwise the chain closure over \<^verbatim>\<open>Prioritize\<close> of every exception in insertion order
  followed by the static handler. Serving a request with that chain (walking the chain
  that holds the compiled handler, with a bound that allows one evaluation for it and
  for each of its entries) returns, and evaluates the exceptions in insertion order, each
  before the static handler: the first route that matches serves the request and nothing
  after it is evaluated; if no route matches, every exception has been evaluated and the
  static handler serves, as the last entry evaluated.
\<close>

theorem Build_exceptions_first:
  assumes "\<not> once w"
  shows
    "let excs = exceptions w @ r;
         h = staticHandler (composedHandler w);
         compiled = snd (Build (Except r w));
         ctx' = ctx\<lparr>Middleware := map Prioritize excs @ [h] @ Middleware ctx\<rparr>;
         passed = map Prioritize (takeWhile (\<lambda>e. \<not> matches e ctx') excs)
     in (excs = [] \<longrightarrow> compiled = h) \<and>
        (excs \<noteq> [] \<longrightarrow> compiled = chainHandler (map Prioritize excs @ [h])) \<and>
        (excs \<noteq> [] \<and> length excs + 1 < fuel \<longrightarrow>
           walkChain fuel matches execRoute (serveStatic ServeHTTP dirOpen w1) [compiled] ctx =
             (case find (\<lambda>e. matches e ctx') excs of
                Some e \<Rightarrow> Returned (compiled # passed @ [Prioritize e], execRoute e ctx')
              | None \<Rightarrow>
                  Returned (compiled # passed @ [h],
                            serveStatic ServeHTTP dirOpen w1 (composedHandler w) ctx')))"
proof -
  let ?excs = "exceptions w @ r"
  let ?fs = "composedHandler w"
  let ?h = "staticHandler ?fs :: 'a HandlerFunc"
  let ?ctx' = "ctx\<lparr>Middleware := map Prioritize ?excs @ [?h] @ Middleware ctx\<rparr>"
  have fresh: "\<not> once (Except r w)"
    using assms by (simp add: Except_def)
  have compiled: "snd (Build (Except r w)) =
      (if ?excs = [] then ?h else chainHandler (map Prioritize ?excs @ [?h]))"
  proof -
    have "snd (Build (Except r w)) = handler (BuildClosure (Except r w))"
      using Build_first [OF fresh] by simp
    also have "\<dots> = (if ?excs = [] then ?h else chainHandler (map Prioritize ?excs @ [?h]))"
      by (simp add: BuildClosure_eq) (simp add: Except_def composedHandler_def)
    finally show ?thesis .
  qed
  have walk: "walkChain fuel matches execRoute (serveStatic ServeHTTP dirOpen w1)
        [chainHandler (map Prioritize ?excs @ [?h])] ctx =
      (case find (\<lambda>e. matches e ?ctx') ?excs of
         Some e \<Rightarrow>
           Returned (chainHandler (map Prioritize ?excs @ [?h]) #
                     map Prioritize (takeWhile (\<lambda>e. \<not> matches e ?ctx') ?excs) @ [Prioritize e],
                     execRoute e ?ctx')
       | None \<Rightarrow>
           Returned (chainHandler (map Prioritize ?excs @ [?h]) #
                     map Prioritize (takeWhile (\<lambda>e. \<not> matches e ?ctx') ?excs) @ [?h],
                     serveStatic ServeHTTP dirOpen w1 ?fs ?ctx'))"
    if fuel: "length ?excs + 1 < fuel"
  proof -
    from fuel obtain n where n: "fuel = Suc n" "length ?excs < n" by (cases fuel) auto
    have "walkChain n matches execRoute (serveStatic ServeHTTP dirOpen w1)
            (map Prioritize ?excs @ staticHandler ?fs # Middleware ctx) ?ctx' =
          (case find (\<lambda>e. matches e ?ctx') ?excs of
             Some e \<Rightarrow>
               Returned (map Prioritize (takeWhile (\<lambda>e. \<not> matches e ?ctx') ?excs) @ [Prioritize e],
                         execRoute e ?ctx')
           | None \<Rightarrow>
               Returned (map Prioritize (takeWhile (\<lambda>e. \<not> matches e ?ctx') ?excs) @ [?h],
                         serveStatic ServeHTTP dirOpen w1 ?fs ?ctx'))"
      by (rule walkChain_prioritized [OF n(2)])
    then show ?thesis
      by (simp add: n(1) split: option.split)
  qed
  show ?thesis
    unfolding Let_def compiled using walk by simp
qed

theorem Build_exceptions_first_witness:
  "snd (Build twoRoutes) =
     chainHandler [Prioritize 1, Prioritize 2, staticHandler (http_StripPrefix ''/srv'' FileServer)] \<and>
   walkChain (Suc (Suc (Suc (Suc 0)))) routeTwoOnly routeAnswers (serveStatic idleServer assetsDisk builtSrv)
       [snd (Build twoRoutes)] (requestFor ''/srv/app.js'' False) =
     Returned ([snd (Build twoRoutes), Prioritize 1, Prioritize 2],
               routeAnswers 2 ((requestFor ''/srv/app.js'' False)
                 \<lparr>Middleware := [Prioritize 1, Prioritize 2,
                                 staticHandler (http_StripPrefix ''/srv'' FileServer)]\<rparr>)) \<and>
   walkChain (Suc (Suc (Suc (Suc 0)))) noRoute routeAnswers (serveStatic idleServer assetsDisk builtSrv)
       [snd (Build twoRoutes)] (requestFor ''/srv/app.js'' False) =
     Returned ([snd (Build twoRoutes), Prioritize 1, Prioritize 2,
                staticHandler (http_StripPrefix ''/srv'' FileServer)],
               (requestFor ''/srv/app.js'' False)
                 \<lparr>Middleware := [Prioritize 1, Prioritize 2,
                                 staticHandler (http_StripPrefix ''/srv'' FileServer)]\<rparr>) \<and>
   snd (Build (Except [] (NewStaticHandlerBuilder absolute ''/srv'' :: nat fsHandler))) =
     staticHandler (http_StripPrefix ''/srv'' FileServer)"
  using Build_exceptions_first [OF oneRoute_fresh, of "[2]" "requestFor ''/srv/app.js'' False"
      routeTwoOnly "Suc (Suc (Suc (Suc 0)))" routeAnswers idleServer assetsDisk builtSrv]
    Build_exceptions_first [OF oneRoute_fresh, of "[2]" "requestFor ''/srv/app.js'' False"
      noRoute "Suc (Suc (Suc (Suc 0)))" routeAnswers idleServer assetsDisk builtSrv]
    Build_exceptions_first [OF noRoute_fresh, of "[]" "requestFor ''/srv/app.js'' False"
      noRoute "Suc 0" routeAnswers idleServer assetsDisk builtSrv]
  by (simp add: Let_def twoRoutes_eq Except_def freshSrv_eq composedHandler_def Build_first BuildClosure_eq
      routeTwoOnly_def noRoute_def requestFor_def serveStatic_def builtSrv_eq idleServer_def)

subsection \<open>Serving\<close>

text \<open>What a closure of the builder does depends on the builder only through the three
  fields that it reads at the time of the request.\<close>

lemma serveStatic_cong:
  "gzip w' = gzip w \<Longrightarrow> listDirectories w' = listDirectories w \<Longrightarrow> filesystem w' = filesystem w \<Longrightarrow>
   serveStatic ServeHTTP dirOpen w' = serveStatic ServeHTTP dirOpen w"
  using Open_cong [of w' w dirOpen] by (intro ext) (simp add: serveStatic_def)

lemma Serve_cong:
  "gzip w' = gzip w \<Longrightarrow> listDirectories w' = listDirectories w \<Longrightarrow> filesystem w' = filesystem w \<Longrightarrow>
   Serve Do runPrioritize ServeHTTP dirOpen w' hf ctx = Serve Do runPrioritize ServeHTTP dirOpen w hf ctx"
  using serveStatic_cong [of w' w ServeHTTP dirOpen]
  by (simp add: Serve_def split: HandlerFunc.split)

text \<open>
  Claim C4 as stated fails for \<^verbatim>\<open>Gzip\<close> and \<^verbatim>\<open>Listing\<close>: the closure \<^verbatim>\<open>h\<close> reads
  \<^verbatim>\<open>w.gzip\<close>, and \<^verbatim>\<open>Open\<close> reads \<^verbatim>\<open>w.listDirectories\<close>, when a request is served. After
  \<^verbatim>\<open>Build\<close>, \<^verbatim>\<open>Gzip(true)\<close> makes the same handler write the \<^verbatim>\<open>Content-Encoding\<close> header,
  and \<^verbatim>\<open>Listing(true)\<close> makes \<^verbatim>\<open>Open\<close> return the file without the \<^verbatim>\<open>noListFile\<close>
  wrapper.
\<close>

theorem Gzip_Listing_after_Build:
  "snd (Build (Gzip True builtSrv)) = snd (Build builtSrv) \<and>
   header (serveStatic idleServer assetsDisk builtSrv (http_StripPrefix ''/srv'' FileServer)
             (requestFor ''/srv/app.js'' True)) contentEncodingHeader = [] \<and>
   header (serveStatic idleServer assetsDisk (Gzip True builtSrv) (http_StripPrefix ''/srv'' FileServer)
             (requestFor ''/srv/app.js'' True)) contentEncodingHeader = [''gzip''] \<and>
   snd (Build (Listing True builtSrv)) = snd (Build builtSrv) \<and>
   Open assetsDisk builtSrv ''/assets'' = Inr (noListFile (osFile [''app.js'', ''site.css''])) \<and>
   Open assetsDisk (Listing True builtSrv) ''/assets'' = Inr (osFile [''app.js'', ''site.css''])"
  by (simp add: builtSrv_eq Build_def onceDo_def Gzip_def Listing_def serveStatic_def
      idleServer_def requestFor_def Header_Add_def SetHeader_def acquireGzipResponseWriter_def
      releaseGzipResponseWriter_def Open_def assetsDisk_def contentEncodingHeader_def
      varyHeader_def acceptEncodingHeader_def)

text \<open>
  Claim C4, amended: on a builder that has been built, no mutator replaces the compiled
  handler (\<^verbatim>\<open>Build\<close> returns the same one after any of the five), and \<^verbatim>\<open>Path\<close>,
  \<^verbatim>\<open>StripPath\<close> and \<^verbatim>\<open>Except\<close> change nothing of what a handler does with a request,
  nor of what \<^verbatim>\<open>Open\<close> returns.
\<close>

theorem mutators_after_Build:
  assumes "once w"
  shows "snd (Build (Path p w)) = snd (Build w) \<and>
         snd (Build (StripPath yesNo w)) = snd (Build w) \<and>
         snd (Build (Except r w)) = snd (Build w) \<and>
         snd (Build (Gzip enable w)) = snd (Build w) \<and>
         snd (Build (Listing onOff w)) = snd (Build w) \<and>
         Serve Do runPrioritize ServeHTTP dirOpen (Path p w) hf ctx =
           Serve Do runPrioritize ServeHTTP dirOpen w hf ctx \<and>
         Serve Do runPrioritize ServeHTTP dirOpen (StripPath yesNo w) hf ctx =
           Serve Do runPrioritize ServeHTTP dirOpen w hf ctx \<and>
         Serve Do runPrioritize ServeHTTP dirOpen (Except r w) hf ctx =
           Serve Do runPrioritize ServeHTTP dirOpen w hf ctx \<and>
         Open dirOpen (Path p w) name = Open dirOpen w name \<and>
         Open dirOpen (StripPath yesNo w) name = Open dirOpen w name \<and>
         Open dirOpen (Except r w) name = Open dirOpen w name"
proof -
  have "Serve Do runPrioritize ServeHTTP dirOpen (Path p w) hf ctx =
           Serve Do runPrioritize ServeHTTP dirOpen w hf ctx"
    by (rule Serve_cong) (simp_all add: Path_def)
  moreover have "Serve Do runPrioritize ServeHTTP dirOpen (StripPath yesNo w) hf ctx =
           Serve Do runPrioritize ServeHTTP dirOpen w hf ctx"
    by (rule Serve_cong) (simp_all add: StripPath_def)
  moreover have "Serve Do runPrioritize ServeHTTP dirOpen (Except r w) hf ctx =
           Serve Do runPrioritize ServeHTTP dirOpen w hf ctx"
    by (rule Serve_cong) (simp_all add: Except_def)
  moreover have "snd (Build (Path p w)) = snd (Build w)"
    "snd (Build (StripPath yesNo w)) = snd (Build w)"
    "snd (Build (Except r w)) = snd (Build w)"
    "snd (Build (Gzip enable w)) = snd (Build w)"
    "snd (Build (Listing onOff w)) = snd (Build w)"
    using assms
    by (simp_all add: Build_def onceDo_def Path_def StripPath_def Except_def Gzip_def Listing_def)
  moreover have "Open dirOpen (Path p w) = Open dirOpen w"
    "Open dirOpen (StripPath yesNo w) = Open dirOpen w"
    "Open dirOpen (Except r w) = Open dirOpen w"
    by (rule Open_cong; simp add: Path_def StripPath_def Except_def)+
  ultimately show ?thesis by simp
qed

theorem mutators_after_Build_witness:
  "once builtSrv \<and>
   snd (Build (Path ''/files'' builtSrv)) = staticHandler (http_StripPrefix ''/srv'' FileServer) \<and>
   snd (Build (StripPath False builtSrv)) = staticHandler (http_StripPrefix ''/srv'' FileServer) \<and>
   snd (Build (Except [7] builtSrv)) = staticHandler (http_StripPrefix ''/srv'' FileServer) \<and>
   Open assetsDisk (Path ''/files'' builtSrv) ''/assets'' =
     Inr (noListFile (osFile [''app.js'', ''site.css'']))"
  using mutators_after_Build [OF once_builtSrv, where p = "''/files''" and yesNo = False
      and r = "[7]" and dirOpen = assetsDisk and name = "''/assets''"]
    Open_builtSrv once_builtSrv
  by (simp add: Build_built [OF once_builtSrv]) (simp add: builtSrv_eq)

text \<open>
  Claim C8: when \<^verbatim>\<open>w.gzip\<close> is set and the client allows gzip, the static handler hands
  the request to the file server with the compressing writer as the write target, in a
  context in which \<^verbatim>\<open>Vary\<close> holds \<^verbatim>\<open>Accept-Encoding\<close>, \<^verbatim>\<open>Content-Encoding\<close> holds
  \<^verbatim>\<open>gzip\<close> and one more compressing writer is in use, and it releases that writer after
  the file server has returned; otherwise it hands the request, with no header written
  and no writer taken, to the file server with the response writer of the context.
\<close>

theorem serveStatic_gzip:
  "(gzip w \<and> clientAllowsGzip ctx \<longrightarrow>
      serveStatic ServeHTTP dirOpen w fsHandler ctx =
        releaseGzipResponseWriter
          (ServeHTTP fsHandler (Open dirOpen w) gzipResponseWriter (gzipPrepared ctx)) \<and>
      acceptEncodingHeader \<in> set (header (gzipPrepared ctx) varyHeader) \<and>
      ''gzip'' \<in> set (header (gzipPrepared ctx) contentEncodingHeader) \<and>
      gzipWritersInUse (gzipPrepared ctx) = Suc (gzipWritersInUse ctx) \<and>
      gzipWritersInUse (serveStatic ServeHTTP dirOpen w fsHandler ctx) =
        gzipWritersInUse (ServeHTTP fsHandler (Open dirOpen w) gzipResponseWriter (gzipPrepared ctx)) - 1) \<and>
   (\<not> (gzip w \<and> clientAllowsGzip ctx) \<longrightarrow>
      serveStatic ServeHTTP dirOpen w fsHandler ctx =
        ServeHTTP fsHandler (Open dirOpen w) ctxResponseWriter ctx)"
  by (simp add: serveStatic_def gzipPrepared_def acquireGzipResponseWriter_def
      releaseGzipResponseWriter_def SetHeader_def Header_Add_def Let_def
      varyHeader_def contentEncodingHeader_def)

theorem serveStatic_gzip_witness:
  "header (serveStatic idleServer assetsDisk (Gzip True builtSrv) FileServer
             (requestFor ''/app.js'' True)) varyHeader = [''Accept-Encoding''] \<and>
   header (serveStatic idleServer assetsDisk (Gzip True builtSrv) FileServer
             (requestFor ''/app.js'' True)) contentEncodingHeader = [''gzip''] \<and>
   gzipWritersInUse (serveStatic idleServer assetsDisk (Gzip True builtSrv) FileServer
             (requestFor ''/app.js'' True)) = 0 \<and>
   serveStatic idleServer assetsDisk (Gzip True builtSrv) FileServer (requestFor ''/app.js'' False) =
     requestFor ''/app.js'' False \<and>
   serveStatic idleServer assetsDisk builtSrv FileServer (requestFor ''/app.js'' True) =
     requestFor ''/app.js'' True"
  using serveStatic_gzip [of "Gzip True builtSrv" "requestFor ''/app.js'' True" idleServer assetsDisk FileServer]
    serveStatic_gzip [of "Gzip True builtSrv" "requestFor ''/app.js'' False" idleServer assetsDisk FileServer]
    serveStatic_gzip [of builtSrv "requestFor ''/app.js'' True" idleServer assetsDisk FileServer]
  by (simp add: builtSrv_eq Gzip_def requestFor_def idleServer_def gzipPrepared_def
      acquireGzipResponseWriter_def releaseGzipResponseWriter_def SetHeader_def Header_Add_def
      varyHeader_def contentEncodingHeader_def acceptEncodingHeader_def)

end
